theory Spec2Isabelle
  imports Main "HOL-Library.Finite_Map"
begin

section \<open>Strings\<close>

text \<open>
  A JavaScript string is a sequence of UTF-16 code units. It is modelled as a
  \<^typ>\<open>string\<close>, one \<^typ>\<open>char\<close> per code unit, which covers the code units
  0 to 255. The regular expressions of the module carry no \<open>u\<close> flag, so they
  inspect one code unit at a time.
\<close>

definition code_unit :: "char \<Rightarrow> nat" where
  "code_unit c = of_char c"

text \<open>The character ranges \<open>a-z\<close>, \<open>A-Z\<close> and \<open>0-9\<close> of the classes.\<close>

definition is_alnum :: "char \<Rightarrow> bool" where
  "is_alnum c =
     ((97 \<le> code_unit c \<and> code_unit c \<le> 122) \<or>
      (65 \<le> code_unit c \<and> code_unit c \<le> 90) \<or>
      (48 \<le> code_unit c \<and> code_unit c \<le> 57))"

text \<open>The class \<open>[a-zA-Z0-9/]\<close>, whose complement the POSIX filter replaces.\<close>

definition posix_class :: "char \<Rightarrow> bool" where
  "posix_class c = (is_alnum c \<or> c = CHR ''/'')"

text \<open>The class \<open>[a-zA-Z0-9\\:]\<close>, whose complement the Windows filter replaces.\<close>

definition win32_class :: "char \<Rightarrow> bool" where
  "win32_class c = (is_alnum c \<or> c = CHR 0x5C \<or> c = CHR '':'')"

text \<open>
  \<open>input.replace(/[^...]+/g, '-')\<close>: scanning from the left, every maximal run of
  code units outside the class \<open>keep\<close> is replaced by one dash (the \<open>+\<close> is greedy,
  and the search resumes after the match).
\<close>

function replace_runs :: "(char \<Rightarrow> bool) \<Rightarrow> string \<Rightarrow> string" where
  "replace_runs keep [] = []"
| "replace_runs keep (c # cs) =
     (if keep c then c # replace_runs keep cs
      else CHR ''-'' # replace_runs keep (dropWhile (\<lambda>d. \<not> keep d) cs))"
  by pat_completeness auto
termination
  by (relation "measure (\<lambda>(keep, s). length s)")
     (auto simp: less_Suc_eq_le length_dropWhile_le)

text \<open>
  \<open>fixed.replace(/--/g, '-')\<close>: scanning from the left, every occurrence of two
  adjacent dashes is replaced by one dash, and the search resumes after the two
  dashes it matched (one pass, matches do not overlap).
\<close>

fun replace_double_dash :: "string \<Rightarrow> string" where
  "replace_double_dash (c # d # cs) =
     (if c = CHR ''-'' \<and> d = CHR ''-'' then CHR ''-'' # replace_double_dash cs
      else c # replace_double_dash (d # cs))"
| "replace_double_dash cs = cs"

text \<open>\<open>s.includes(pat)\<close>: \<open>pat\<close> occurs in \<open>s\<close> as a contiguous substring.\<close>

fun starts_with :: "string \<Rightarrow> string \<Rightarrow> bool" where
  "starts_with s [] = True"
| "starts_with [] (p # ps) = False"
| "starts_with (c # cs) (p # ps) = (c = p \<and> starts_with cs ps)"

fun str_includes :: "string \<Rightarrow> string \<Rightarrow> bool" where
  "str_includes [] pat = starts_with [] pat"
| "str_includes (c # cs) pat = (starts_with (c # cs) pat \<or> str_includes cs pat)"

section \<open>The sanitization filters\<close>

definition filterPosixPath :: "string \<Rightarrow> string" where
  "filterPosixPath input =
     (let fixed = replace_runs posix_class input in replace_double_dash fixed)"

definition filterWin32Path :: "string \<Rightarrow> string" where
  "filterWin32Path input =
     (let fixed = replace_runs win32_class input in replace_double_dash fixed)"

text \<open>\<open>filterPath\<close> reads \<open>os.platform()\<close>; the platform tag is a parameter here.\<close>

definition filterPath :: "string \<Rightarrow> string \<Rightarrow> string" where
  "filterPath platform input =
     (let fixed = (if platform = ''win32'' then replace_runs win32_class input
                   else replace_runs posix_class input)
      in replace_double_dash fixed)"

text \<open>
  The shape of a string in which every code unit outside \<open>keep\<close> is a dash that
  stands alone: the next code unit, if any, is in \<open>keep\<close>.
\<close>

fun single_dashes :: "(char \<Rightarrow> bool) \<Rightarrow> string \<Rightarrow> bool" where
  "single_dashes keep [] = True"
| "single_dashes keep (c # cs) =
     (if keep c then single_dashes keep cs
      else c = CHR ''-'' \<and> (case cs of [] \<Rightarrow> True | d # ds \<Rightarrow> keep d) \<and> single_dashes keep cs)"

section \<open>JavaScript values\<close>

text \<open>
  The package descriptor is typed \<open>any\<close>. Its values are modelled by the datatype
  \<open>js_value\<close>: the values of JSON and \<open>undefined\<close>, as \<open>JSON.parse\<close> or a
  plain literal builds them. A number is identified by the string
  \<open>Number.prototype.toString\<close> prints for it, which is all the module can observe
  of a number. An object \<open>Obj\<close> is the finite map of its own enumerable properties;
  its prototype is \<open>Object.prototype\<close>, and a key \<open>__proto__\<close> in the map is an
  own property, as \<open>JSON.parse\<close> creates it. Functions and objects of other classes
  are not values of a descriptor here.
\<close>

datatype js_value =
    Undefined
  | Null
  | Bool bool
  | Num string
  | Str string
  | Arr "js_value list"
  | Obj "(string, js_value) fmap"

text \<open>
  A property lookup finds a value of the descriptor, or a member of the runtime's
  library that the receiver inherits from a built-in prototype (\<open>toString\<close>,
  \<open>constructor\<close>, ...). Such a member is a \<open>Builtin\<close>, identified by a name: a
  function or an object that is not an array and has no own enumerable property.
  Which members a value inherits depends on the runtime and is a parameter
  (\<open>members\<close> below).
\<close>

datatype js_any = Data js_value | Builtin string

text \<open>What the module raises or lets through.\<close>

datatype exn =
    AssertionError "string option"
  | Error string
  | TypeError
  | EngineError string

text \<open>Truthiness, as \<open>assert(value)\<close> tests it.\<close>

fun js_truthy :: "js_value \<Rightarrow> bool" where
  "js_truthy Undefined = False"
| "js_truthy Null = False"
| "js_truthy (Bool b) = b"
| "js_truthy (Num n) = (n \<noteq> ''0'' \<and> n \<noteq> ''NaN'')"
| "js_truthy (Str s) = (s \<noteq> [])"
| "js_truthy (Arr xs) = True"
| "js_truthy (Obj m) = True"

text \<open>The decimal numeral of an array index.\<close>

definition digit_char :: "nat \<Rightarrow> char" where
  "digit_char d = ''0123456789'' ! d"

fun show_nat :: "nat \<Rightarrow> string" where
  "show_nat n = (if n < 10 then [digit_char n] else show_nat (n div 10) @ [digit_char (n mod 10)])"

declare show_nat.simps [simp del]

text \<open>
  The own enumerable string-keyed properties of a value, as the spread syntax and
  \<open>Object.entries\<close> see them: the fields of an object, the elements of an array
  under their indices, the code units of a string under their indices, and nothing
  for the other values.
\<close>

fun own_enumerable :: "js_any \<Rightarrow> (string, js_value) fmap" where
  "own_enumerable (Data (Obj m)) = m"
| "own_enumerable (Data (Arr xs)) = fmap_of_list (zip (map show_nat [0..<length xs]) xs)"
| "own_enumerable (Data (Str s)) =
     fmap_of_list (zip (map show_nat [0..<length s]) (map (\<lambda>c. Str [c]) s))"
| "own_enumerable v = fmempty"

text \<open>
  \<open>members v key\<close> is what a lookup of \<open>key\<close> on \<open>v\<close> finds when \<open>v\<close> has no own
  enumerable property \<open>key\<close> (and \<open>key\<close> is not the \<open>length\<close> of an array or of a
  string): a member that \<open>v\<close> inherits from the built-in prototypes of the runtime,
  or a property of a \<open>Builtin\<close>; \<open>Data Undefined\<close> when there is none.
\<close>

type_synonym members = "js_any \<Rightarrow> string \<Rightarrow> js_any"

text \<open>
  Property access \<open>value[key]\<close>: a TypeError on \<open>undefined\<close> and \<open>null\<close>; an own
  property where there is one (\<open>length\<close> is an own property of arrays and strings
  that is not enumerable); otherwise what the value inherits.
\<close>

fun js_get :: "members \<Rightarrow> js_any \<Rightarrow> string \<Rightarrow> exn + js_any" where
  "js_get mem (Data Undefined) key = Inl TypeError"
| "js_get mem (Data Null) key = Inl TypeError"
| "js_get mem (Data (Arr xs)) key =
     Inr (case fmlookup (own_enumerable (Data (Arr xs))) key of
            Some v \<Rightarrow> Data v
          | None \<Rightarrow> if key = ''length'' then Data (Num (show_nat (length xs)))
                    else mem (Data (Arr xs)) key)"
| "js_get mem (Data (Str s)) key =
     Inr (case fmlookup (own_enumerable (Data (Str s))) key of
            Some v \<Rightarrow> Data v
          | None \<Rightarrow> if key = ''length'' then Data (Num (show_nat (length s)))
                    else mem (Data (Str s)) key)"
| "js_get mem v key =
     Inr (case fmlookup (own_enumerable v) key of Some x \<Rightarrow> Data x | None \<Rightarrow> mem v key)"

text \<open>
  \<open>String(value)\<close> and \<open>array.join(sep)\<close>. \<open>join\<close> prints \<open>undefined\<close> and
  \<open>null\<close> elements as the empty string and every other element as \<open>String\<close>
  does. An array prints as its elements joined by a comma. An object prints as
  \<open>[object Object]\<close> through the \<open>toString\<close> it inherits; when it has an own
  property \<open>toString\<close> (a value of the descriptor, which is not callable) the
  conversion finds no method that returns a primitive (the \<open>valueOf\<close> it inherits
  returns the object itself, and an own \<open>valueOf\<close> is not callable either) and
  throws a TypeError.
\<close>

fun js_to_string :: "js_value \<Rightarrow> exn + string"
  and js_join :: "string \<Rightarrow> js_value list \<Rightarrow> exn + string" where
  "js_to_string Undefined = Inr ''undefined''"
| "js_to_string Null = Inr ''null''"
| "js_to_string (Bool b) = Inr (if b then ''true'' else ''false'')"
| "js_to_string (Num n) = Inr n"
| "js_to_string (Str s) = Inr s"
| "js_to_string (Arr xs) = js_join '','' xs"
| "js_to_string (Obj m) =
     (case fmlookup m ''toString'' of
        None \<Rightarrow> Inr ''[object Object]''
      | Some v \<Rightarrow> Inl TypeError)"
| "js_join sep [] = Inr []"
| "js_join sep (x # xs) =
     (case (if x = Undefined \<or> x = Null then Inr [] else js_to_string x) of
        Inl e \<Rightarrow> Inl e
      | Inr s \<Rightarrow>
          if xs = [] then Inr s
          else (case js_join sep xs of
                  Inl e \<Rightarrow> Inl e
                | Inr rest \<Rightarrow> Inr (s @ sep @ rest)))"

text \<open>
  \<open>s.trim()\<close> removes the white space and line terminators at both ends; among the
  code units 0 to 255 these are TAB, LF, VT, FF, CR, SP and NBSP.
\<close>

definition is_js_space :: "char \<Rightarrow> bool" where
  "is_js_space c = (code_unit c \<in> {9, 10, 11, 12, 13, 32, 160})"

definition js_trim :: "string \<Rightarrow> string" where
  "js_trim s = rev (dropWhile is_js_space (rev (dropWhile is_js_space s)))"

section \<open>General purpose functions\<close>

text \<open>\<open>typeof value\<close> is neither \<open>'object'\<close> nor \<open>'function'\<close>, or the value is \<open>null\<close>.\<close>

fun isPrimitive :: "js_any \<Rightarrow> bool" where
  "isPrimitive (Data (Arr xs)) = False"
| "isPrimitive (Data (Obj m)) = False"
| "isPrimitive (Builtin b) = False"
| "isPrimitive v = True"

fun isArray :: "js_any \<Rightarrow> bool" where
  "isArray (Data (Arr xs)) = True"
| "isArray v = False"

definition isJsonObject :: "js_any \<Rightarrow> bool" where
  "isJsonObject v = (v \<noteq> Data Undefined \<and> \<not> isPrimitive v \<and> \<not> isArray v)"

text \<open>
  An object that the module builds: its own enumerable properties and its prototype,
  which is \<open>Object.prototype\<close> unless an assignment has replaced it.
\<close>

datatype prototype = ObjectPrototype | ReplacedBy js_value

record js_object =
  own :: "(string, js_value) fmap"
  prototype :: prototype

text \<open>\<open>Array.isArray(value) ? value.join(os.EOL) : value\<close>, which throws when \<open>join\<close> does.\<close>

fun join_value :: "string \<Rightarrow> js_value \<Rightarrow> exn + js_value" where
  "join_value eol (Arr xs) = map_sum id Str (js_join eol xs)"
| "join_value eol v = Inr v"

text \<open>
  \<open>joins eol v\<close>: that expression does not throw for the value \<open>v\<close>;
  \<open>joined eol v\<close> is the value it then gives (and \<open>v\<close> itself when it throws, a
  case that \<open>joinMultiLineProperties\<close> never uses).
\<close>

definition joins :: "string \<Rightarrow> js_value \<Rightarrow> bool" where
  "joins eol v = (case join_value eol v of Inl e \<Rightarrow> False | Inr w \<Rightarrow> True)"

definition joined :: "string \<Rightarrow> js_value \<Rightarrow> js_value" where
  "joined eol v = (case join_value eol v of Inl e \<Rightarrow> v | Inr w \<Rightarrow> w)"

text \<open>Every entry of \<open>props\<close> can be flattened: no \<open>join\<close> throws.\<close>

definition flattens :: "string \<Rightarrow> js_any \<Rightarrow> bool" where
  "flattens eol props = fmpred (\<lambda>key v. joins eol v) (own_enumerable props)"

text \<open>
  The assignments \<open>result[key] = value\<close> on the fresh object \<open>result = {}\<close>, one for
  each entry of \<open>entries\<close>. An assignment creates an own property, except for the key
  \<open>__proto__\<close>: that assignment runs the setter of \<open>Object.prototype.__proto__\<close>,
  which creates no property; it replaces the prototype of \<open>result\<close> when the value is
  an object or \<open>null\<close>, and does nothing for any other value.
\<close>

definition assign_entries :: "(string, js_value) fmap \<Rightarrow> js_object" where
  "assign_entries entries =
     \<lparr>own = fmdrop ''__proto__'' entries,
      prototype =
        (case fmlookup entries ''__proto__'' of
           None \<Rightarrow> ObjectPrototype
         | Some v \<Rightarrow>
             if v = Null \<or> \<not> isPrimitive (Data v) then ReplacedBy v else ObjectPrototype)\<rparr>"

text \<open>
  \<open>_joinMultiLineProperties\<close>: for every entry of the argument, in the order of
  \<open>Object.entries\<close>, an array value is joined with the end-of-line marker of the host
  (\<open>os.EOL\<close>, a parameter here) and any other value taken as it is, and the result is
  assigned to \<open>result[key]\<close>. The first \<open>join\<close> that throws ends the call with its
  TypeError.
\<close>

definition joinMultiLineProperties :: "string \<Rightarrow> js_any \<Rightarrow> exn + js_object" where
  "joinMultiLineProperties eol props =
     (if flattens eol props
      then Inr (assign_entries (fmmap (joined eol) (own_enumerable props)))
      else Inl TypeError)"

section \<open>The host and the substitution map\<close>

text \<open>
  What \<open>prepareMap\<close> reads of the host through the \<open>os\<close>, \<open>path\<close> and
  \<open>process\<close> modules is a parameter: the record \<open>host\<close>. The function
  \<open>os.version\<close> exists since Node.js 12 only; \<open>host_os_version\<close> is \<open>None\<close>
  on a runtime without it.
\<close>

record cpu_times =
  times_user :: int
  times_nice :: int
  times_sys :: int
  times_idle :: int
  times_irq :: int

record cpu_info =
  cpu_model :: string
  cpu_speed :: int
  cpu_times :: cpu_times

record os_constants =
  signals :: "(string, int) fmap"
  errno :: "(string, int) fmap"

record os_facts =
  os_EOL :: string
  os_arch :: string
  os_constants :: os_constants
  os_cpus :: "cpu_info list"
  os_endianness :: string
  os_homedir :: string
  os_hostname :: string
  os_platform :: string
  os_release :: string
  os_tmpdir :: string
  os_type :: string

record os_map = os_facts +
  os_version :: string

record path_convention =
  delimiter :: string
  sep :: string

record path_map = path_convention +
  win32 :: path_convention
  posix :: path_convention

record host =
  host_env :: "(string, string) fmap"
  host_os :: os_facts
  host_os_version :: "string option"
  host_path :: path_convention
  host_members :: members

text \<open>The constants of \<open>path.win32\<close> and \<open>path.posix\<close> are the same on every host.\<close>

definition path_win32 :: path_convention where
  "path_win32 = \<lparr>delimiter = '';'', sep = [CHR 0x5C]\<rparr>"

definition path_posix :: path_convention where
  "path_posix = \<lparr>delimiter = '':'', sep = ''/''\<rparr>"

text \<open>
  The interface \<open>XpmLiquidMap\<close>; its optional fields are options. The
  \<open>configuration\<close> is always built by an object literal, so its prototype is
  \<open>Object.prototype\<close> and the map of its own properties stands for it.
\<close>

record XpmLiquidMap =
  env :: "(string, string) fmap"
  os :: os_map
  path :: path_map
  package :: "js_value option"
  configuration :: "(string, js_value) fmap option"
  properties :: "js_object option"

section \<open>prepareMap\<close>

text \<open>The object literal \<open>{}\<close>.\<close>

definition empty_object :: js_object where
  "empty_object = \<lparr>own = fmempty, prototype = ObjectPrototype\<rparr>"

text \<open>
  The object literal that \<open>prepareMap\<close> starts from, with the assignment
  \<open>liquidMap.properties = {}\<close> that follows it.
\<close>

definition initial_map :: "host \<Rightarrow> string \<Rightarrow> js_value \<Rightarrow> XpmLiquidMap" where
  "initial_map h version packageJson =
     \<lparr>env = host_env h,
      os = os_facts.extend (host_os h) \<lparr>os_version = version\<rparr>,
      path = path_convention.extend (host_path h) \<lparr>win32 = path_win32, posix = path_posix\<rparr>,
      package = Some packageJson,
      configuration = None,
      properties = Some empty_object\<rparr>"

text \<open>
  What the spread \<open>...liquidMap.properties\<close> copies: the own enumerable properties,
  nothing when the field is absent.
\<close>

definition spread_properties :: "XpmLiquidMap \<Rightarrow> (string, js_value) fmap" where
  "spread_properties liquidMap =
     (case properties liquidMap of None \<Rightarrow> fmempty | Some p \<Rightarrow> own p)"

text \<open>
  The block guarded by the test of the configuration name: it is entered when the
  name is neither \<open>undefined\<close> nor \<open>null\<close> (both \<open>None\<close> here) and not blank
  after trimming. \<open>xpack\<close> is the value of \<open>packageJson.xpack\<close>. The two spreads
  build fresh objects, with the prototype \<open>Object.prototype\<close>; a spread copies a key
  \<open>__proto__\<close> as an own property.
\<close>

definition select_configuration ::
  "members \<Rightarrow> string \<Rightarrow> js_any \<Rightarrow> string \<Rightarrow> XpmLiquidMap \<Rightarrow> exn + XpmLiquidMap" where
  "select_configuration mem eol xpack buildConfigurationName liquidMap =
     (case js_get mem xpack ''buildConfigurations'' of
        Inl e \<Rightarrow> Inl e
      | Inr buildConfigurations \<Rightarrow>
          if buildConfigurations = Data Undefined
          then Inl (Error ''package.json has no buildConfigurations'')
          else
            (case js_get mem buildConfigurations buildConfigurationName of
               Inl e \<Rightarrow> Inl e
             | Inr buildConfiguration \<Rightarrow>
                 if buildConfiguration = Data Undefined
                 then Inl (Error (''package.json has no buildConfiguration.'' @
                                  buildConfigurationName))
                 else
                   (let liquidMap2 = liquidMap
                          \<lparr>configuration :=
                             Some (fmupd ''name'' (Str buildConfigurationName)
                                     (own_enumerable buildConfiguration))\<rparr>
                    in case js_get mem buildConfiguration ''properties'' of
                         Inl e \<Rightarrow> Inl e
                       | Inr p \<Rightarrow>
                           if isJsonObject p
                           then (case joinMultiLineProperties eol p of
                                   Inl e \<Rightarrow> Inl e
                                 | Inr flat \<Rightarrow>
                                     Inr (liquidMap2
                                       \<lparr>properties :=
                                          Some \<lparr>own = spread_properties liquidMap2 ++\<^sub>f own flat,
                                                prototype = ObjectPrototype\<rparr>\<rparr>))
                           else Inr liquidMap2)))"

text \<open>
  The first statement of the block guarded by \<open>_isJsonObject(packageJson.xpack)\<close>:
  the properties of the map are replaced when \<open>xpack.properties\<close> is an object.
  The result is the map as it stands when the configuration name is tested.
\<close>

definition base_map ::
  "host \<Rightarrow> string \<Rightarrow> js_value \<Rightarrow> js_any \<Rightarrow> exn + XpmLiquidMap" where
  "base_map h version packageJson xpack =
     (case js_get (host_members h) xpack ''properties'' of
        Inl e \<Rightarrow> Inl e
      | Inr p \<Rightarrow>
          if isJsonObject p
          then (case joinMultiLineProperties (os_EOL (host_os h)) p of
                  Inl e \<Rightarrow> Inl e
                | Inr flat \<Rightarrow> Inr ((initial_map h version packageJson)\<lparr>properties := Some flat\<rparr>))
          else Inr (initial_map h version packageJson))"

text \<open>
  \<open>prepareMap\<close>: the two assertions, the initial map, and the block guarded by
  \<open>_isJsonObject(packageJson.xpack)\<close>. The package descriptor is a required
  argument; a caller that leaves it out passes \<open>Undefined\<close>.
\<close>

definition prepareMap :: "host \<Rightarrow> js_value \<Rightarrow> string option \<Rightarrow> exn + XpmLiquidMap" where
  "prepareMap h packageJson buildConfigurationName =
     (if \<not> js_truthy packageJson then Inl (AssertionError None)
      else
        (case host_os_version h of
           None \<Rightarrow>
             Inl (AssertionError (Some ''Mandatory os.version available only since 12.x''))
         | Some version \<Rightarrow>
             (case js_get (host_members h) (Data packageJson) ''xpack'' of
                Inl e \<Rightarrow> Inl e
              | Inr xpack \<Rightarrow>
                  if isJsonObject xpack then
                    (case base_map h version packageJson xpack of
                       Inl e \<Rightarrow> Inl e
                     | Inr liquidMap \<Rightarrow>
                         (case buildConfigurationName of
                            None \<Rightarrow> Inr liquidMap
                          | Some name \<Rightarrow>
                              if js_trim name \<noteq> []
                              then select_configuration (host_members h) (os_EOL (host_os h))
                                     xpack name liquidMap
                              else Inr liquidMap))
                  else Inr (initial_map h version packageJson))))"

section \<open>performSubstitutions\<close>

text \<open>
  The rendering engine is a parameter: \<open>render template map\<close> is what
  \<open>engine.parseAndRender\<close> resolves to (\<open>Inr\<close>) or rejects with (\<open>Inl\<close>). The
  calls of the engine and the lines of the trace log are recorded in the state
  \<open>driver_io\<close>, in the order they happen.
\<close>

type_synonym render = "string \<Rightarrow> XpmLiquidMap \<Rightarrow> exn + string"

record driver_io =
  render_calls :: "string list"
  log_trace :: "string list"

definition trace_line :: "string \<Rightarrow> string" where
  "trace_line substituted =
     ''XpmLiquidMap.performSubstitutions(): '' @ [CHR 0x27] @ substituted @ [CHR 0x27]"

definition has_marker :: "string \<Rightarrow> bool" where
  "has_marker current = (str_includes current ''{{'' \<or> str_includes current ''{%'')"

text \<open>
  The \<open>while\<close> loop with the \<open>return\<close> that follows it, on the variables
  \<open>current\<close> and \<open>substituted\<close>. The loop need not end: the result is \<open>None\<close>
  when it does not.
\<close>

partial_function (option) render_loop ::
  "render \<Rightarrow> XpmLiquidMap \<Rightarrow> string \<Rightarrow> string \<Rightarrow> driver_io \<Rightarrow>
   ((exn + string) \<times> driver_io) option" where
  "render_loop render m current substituted io =
     (if has_marker current then
        (case render current m of
           Inl e \<Rightarrow> Some (Inl e, io\<lparr>render_calls := render_calls io @ [current]\<rparr>)
         | Inr s \<Rightarrow>
             if s = current
             then Some (Inr s, io\<lparr>render_calls := render_calls io @ [current],
                                  log_trace := log_trace io @ [trace_line s]\<rparr>)
             else render_loop render m s s
                    (io\<lparr>render_calls := render_calls io @ [current],
                        log_trace := log_trace io @ [trace_line s]\<rparr>))
      else Some (Inr substituted, io))"

text \<open>
  \<open>performSubstitutions\<close>: the assertion on the map (\<open>None\<close> is a map that is
  \<open>undefined\<close> or \<open>null\<close>), the shortcut for the empty string, and the loop.
\<close>

definition performSubstitutions ::
  "render \<Rightarrow> string \<Rightarrow> XpmLiquidMap option \<Rightarrow> driver_io \<Rightarrow>
   ((exn + string) \<times> driver_io) option" where
  "performSubstitutions render input map_arg io =
     (case map_arg of
        None \<Rightarrow> Some (Inl (AssertionError None), io)
      | Some m \<Rightarrow>
          if input = [] then Some (Inr input, io)
          else render_loop render m input input io)"

section \<open>Words of the specification\<close>

text \<open>
  A \<open>Properties\<close> mapping, as the interface declares it: every value is a string or
  an array of strings.
\<close>

fun is_string :: "js_value \<Rightarrow> bool" where
  "is_string (Str s) = True"
| "is_string v = False"

fun is_lines :: "js_value \<Rightarrow> bool" where
  "is_lines (Arr xs) = list_all is_string xs"
| "is_lines v = False"

definition is_Properties :: "(string, js_value) fmap \<Rightarrow> bool" where
  "is_Properties props = fmpred (\<lambda>key v. is_string v \<or> is_lines v) props"

definition all_strings :: "(string, js_value) fmap \<Rightarrow> bool" where
  "all_strings props = fmpred (\<lambda>key v. is_string v) props"

text \<open>
  The lines of a multi-line property joined into one string: the first line, then
  every further line after an end-of-line marker.
\<close>

fun lines_joined :: "string \<Rightarrow> string list \<Rightarrow> string" where
  "lines_joined eol [] = []"
| "lines_joined eol (l # ls) = l @ concat (map (\<lambda>x. eol @ x) ls)"

section \<open>A sample host\<close>

text \<open>
  A host for the examples. Of the members of the built-in prototypes it knows those
  that a plain object inherits from \<open>Object.prototype\<close>: its functions, and
  \<open>Object.prototype\<close> itself under \<open>__proto__\<close>. On any other receiver it finds
  nothing; the examples look up there only the names \<open>xpack\<close>, \<open>properties\<close> and
  \<open>buildConfigurations\<close>, which no built-in prototype has.
\<close>

definition object_prototype_names :: "string list" where
  "object_prototype_names =
     [''constructor'', ''__defineGetter__'', ''__defineSetter__'', ''hasOwnProperty'',
      ''__lookupGetter__'', ''__lookupSetter__'', ''isPrototypeOf'',
      ''propertyIsEnumerable'', ''toString'', ''valueOf'', ''__proto__'',
      ''toLocaleString'']"

fun sample_members :: members where
  "sample_members (Data (Obj m)) key =
     (if key \<in> set object_prototype_names
      then (if key = ''__proto__'' then Builtin ''Object.prototype''
            else if key = ''constructor'' then Builtin ''Object''
            else Builtin (''Object.prototype.'' @ key))
      else Data Undefined)"
| "sample_members v key = Data Undefined"

definition sample_host :: host where
  "sample_host =
     \<lparr>host_env = fmap_of_list [(''HOME'', ''/home/user'')],
      host_os =
        \<lparr>os_EOL = [CHR 0x0A], os_arch = ''x64'',
         os_constants = \<lparr>signals = fmap_of_list [(''SIGINT'', 2)],
                         errno = fmap_of_list [(''ENOENT'', 2)]\<rparr>,
         os_cpus = [], os_endianness = ''LE'', os_homedir = ''/home/user'',
         os_hostname = ''build'', os_platform = ''linux'', os_release = ''6.1.0'',
         os_tmpdir = ''/tmp'', os_type = ''Linux''\<rparr>,
      host_os_version = Some ''#1 SMP'',
      host_path = path_posix,
      host_members = sample_members\<rparr>"

definition sample_map :: XpmLiquidMap where
  "sample_map = initial_map sample_host ''#1 SMP'' (Obj fmempty)"

definition no_io :: driver_io where
  "no_io = \<lparr>render_calls = [], log_trace = []\<rparr>"

section \<open>Runs of the render loop\<close>

text \<open>
  \<open>fails_after render m k current e\<close>: started on \<open>current\<close>, the loop makes \<open>k\<close>
  render calls that succeed and change the string, and the next call fails with \<open>e\<close>.
\<close>

fun fails_after :: "render \<Rightarrow> XpmLiquidMap \<Rightarrow> nat \<Rightarrow> string \<Rightarrow> exn \<Rightarrow> bool" where
  "fails_after render m 0 current e = (has_marker current \<and> render current m = Inl e)"
| "fails_after render m (Suc k) current e =
     (has_marker current \<and>
      (case render current m of
         Inl e' \<Rightarrow> False
       | Inr s \<Rightarrow> s \<noteq> current \<and> fails_after render m k s e))"

text \<open>
  Where the loop stops when every render call succeeds: on a string without marker, or
  on a string that the engine returns unchanged.
\<close>

definition stops_at :: "(string \<Rightarrow> string) \<Rightarrow> string \<Rightarrow> bool" where
  "stops_at r current = (\<not> has_marker current \<or> r current = current)"

text \<open>An engine that never fails, given by a function on strings.\<close>

definition total_engine :: "(string \<Rightarrow> string) \<Rightarrow> render" where
  "total_engine r = (\<lambda>template m. Inr (r template))"

text \<open>
  The number of render calls of a run that stops at the string number \<open>n\<close> of
  \<open>current\<close>, \<open>r current\<close>, \<open>r (r current)\<close>, ...: one call for each earlier
  string, and one more when the string it stops at has a marker (the call that returns
  it unchanged).
\<close>

definition calls_until :: "(string \<Rightarrow> string) \<Rightarrow> nat \<Rightarrow> string \<Rightarrow> nat" where
  "calls_until r n current = (if has_marker ((r ^^ n) current) then Suc n else n)"

section \<open>Properties of the sanitization filters\<close>

lemma dropWhile_unkept_cases:
  "dropWhile (\<lambda>d. \<not> keep d) cs = [] \<or>
   (\<exists>d ds. dropWhile (\<lambda>d. \<not> keep d) cs = d # ds \<and> keep d)"
proof (cases "dropWhile (\<lambda>d. \<not> keep d) cs")
  case Nil
  then show ?thesis by simp
next
  case (Cons d ds)
  then have "\<not> \<not> keep d" using hd_dropWhile [of "\<lambda>d. \<not> keep d" cs] by simp
  with Cons show ?thesis by simp
qed

lemma single_dashes_replace_runs:
  "single_dashes keep (replace_runs keep s)"
proof (induction keep s rule: replace_runs.induct)
  case (1 keep)
  show ?case by simp
next
  case (2 keep c cs)
  show ?case
  proof (cases "keep c")
    case True
    with 2 show ?thesis by simp
  next
    case False
    then have step: "replace_runs keep (c # cs) =
        CHR ''-'' # replace_runs keep (dropWhile (\<lambda>d. \<not> keep d) cs)" by simp
    from dropWhile_unkept_cases [of keep cs] show ?thesis
    proof
      assume e: "dropWhile (\<lambda>d. \<not> keep d) cs = []"
      have "replace_runs keep (c # cs) = [CHR ''-'']" unfolding step e by simp
      then show ?thesis by simp
    next
      assume "\<exists>d ds. dropWhile (\<lambda>d. \<not> keep d) cs = d # ds \<and> keep d"
      then obtain d ds where d: "dropWhile (\<lambda>d. \<not> keep d) cs = d # ds" "keep d" by blast
      from 2(2) [OF False] d have ih: "single_dashes keep (d # replace_runs keep ds)" by simp
      from d(2) have "replace_runs keep (c # cs) = CHR ''-'' # d # replace_runs keep ds"
        unfolding step d(1) by simp
      with ih d(2) show ?thesis by simp
    qed
  qed
qed

lemma replace_runs_single_dashes:
  "single_dashes keep s \<Longrightarrow> replace_runs keep s = s"
proof (induction keep s rule: replace_runs.induct)
  case (1 keep)
  show ?case by simp
next
  case (2 keep c cs)
  show ?case
  proof (cases "keep c")
    case True
    with 2 show ?thesis by simp
  next
    case False
    with 2(3) have c: "c = CHR ''-''" and hd: "(case cs of [] \<Rightarrow> True | d # ds \<Rightarrow> keep d)"
      and rest: "single_dashes keep cs" by simp_all
    from hd have dw: "dropWhile (\<lambda>d. \<not> keep d) cs = cs" by (cases cs) simp_all
    from 2(2) [OF False] rest dw have "replace_runs keep (dropWhile (\<lambda>d. \<not> keep d) cs) = cs" by simp
    with False c show ?thesis by simp
  qed
qed

lemma starts_with_append: "starts_with s p \<longleftrightarrow> (\<exists>ys. s = p @ ys)"
  by (induction s p rule: starts_with.induct) auto

lemma str_includes_iff: "str_includes s p \<longleftrightarrow> (\<exists>xs ys. s = xs @ p @ ys)"
proof (induction s)
  case Nil
  show ?case by (simp add: starts_with_append)
next
  case (Cons c cs)
  show ?case
  proof
    assume "str_includes (c # cs) p"
    then consider "starts_with (c # cs) p" | "str_includes cs p" by auto
    then show "\<exists>xs ys. c # cs = xs @ p @ ys"
    proof cases
      case 1
      then obtain ys where "c # cs = p @ ys" by (auto simp: starts_with_append)
      then have "c # cs = [] @ p @ ys" by simp
      then show ?thesis by blast
    next
      case 2
      with Cons obtain xs ys where "cs = xs @ p @ ys" by blast
      then have "c # cs = (c # xs) @ p @ ys" by simp
      then show ?thesis by blast
    qed
  next
    assume "\<exists>xs ys. c # cs = xs @ p @ ys"
    then obtain xs ys where e: "c # cs = xs @ p @ ys" by blast
    show "str_includes (c # cs) p"
    proof (cases xs)
      case Nil
      with e have "starts_with (c # cs) p" by (auto simp: starts_with_append)
      then show ?thesis by simp
    next
      case (Cons x xs')
      with e have "cs = xs' @ p @ ys" by simp
      with Cons.IH have "str_includes cs p" by blast
      then show ?thesis by simp
    qed
  qed
qed

lemma posix_class_dash: "\<not> posix_class CHR ''-''"
  by (simp add: posix_class_def is_alnum_def code_unit_def)

lemma win32_class_dash: "\<not> win32_class CHR ''-''"
  by (simp add: win32_class_def is_alnum_def code_unit_def)

lemma sd_Cons2: "single_dashes keep (c # d # cs) \<Longrightarrow> (keep c \<or> keep d) \<and> single_dashes keep (d # cs)"
  by (cases "keep c") simp_all

lemma replace_double_dash_single_dashes:
  "\<not> keep CHR ''-'' \<Longrightarrow> single_dashes keep s \<Longrightarrow> replace_double_dash s = s"
proof (induction s rule: replace_double_dash.induct)
  case (1 c d cs)
  from sd_Cons2 [OF 1(4)] have kd: "keep c \<or> keep d" and rest: "single_dashes keep (d # cs)"
    by blast+
  from kd 1(3) have nd: "\<not> (c = CHR ''-'' \<and> d = CHR ''-'')" by blast
  from nd have "(c = CHR ''-'' \<and> d = CHR ''-'') = False" by blast
  then have "replace_double_dash (c # d # cs) = c # replace_double_dash (d # cs)"
    by (simp only: replace_double_dash.simps if_False)
  with 1(2) [OF nd 1(3) rest] show ?case by simp
qed simp_all

lemma single_dashes_no_double_dash:
  "\<not> keep CHR ''-'' \<Longrightarrow> single_dashes keep s \<Longrightarrow> \<not> str_includes s ''--''"
proof (induction s)
  case Nil
  show ?case by simp
next
  case (Cons c cs)
  have rest: "single_dashes keep cs" using Cons.prems(2) by (cases "keep c") simp_all
  have "\<not> starts_with (c # cs) ''--''"
  proof (cases cs)
    case Nil
    then show ?thesis by simp
  next
    case (Cons d ds)
    with Cons.prems(2) sd_Cons2 [of keep c d ds] have "keep c \<or> keep d" by blast
    with Cons.prems(1) have "c \<noteq> CHR ''-'' \<or> d \<noteq> CHR ''-''" by blast
    with Cons show ?thesis by (simp only: starts_with.simps) blast
  qed
  with Cons.IH [OF Cons.prems(1) rest] show ?case by (simp only: str_includes.simps) blast
qed

lemma filters_single_dashes:
  "\<not> keep CHR ''-'' \<Longrightarrow> replace_double_dash (replace_runs keep s) = replace_runs keep s"
  by (rule replace_double_dash_single_dashes [of keep, OF _ single_dashes_replace_runs])

lemma filterPosixPath_eq: "filterPosixPath s = replace_runs posix_class s"
  by (simp add: filterPosixPath_def filters_single_dashes [of posix_class, OF posix_class_dash])

lemma filterWin32Path_eq: "filterWin32Path s = replace_runs win32_class s"
  by (simp add: filterWin32Path_def filters_single_dashes [of win32_class, OF win32_class_dash])

lemma filterPath_eq:
  "filterPath platform s = (if platform = ''win32'' then filterWin32Path s else filterPosixPath s)"
  by (simp add: filterPath_def filterWin32Path_def filterPosixPath_def)

lemma filterPosixPath_no_double_dash: "\<not> str_includes (filterPosixPath s) ''--''"
  unfolding filterPosixPath_eq
  by (rule single_dashes_no_double_dash [of posix_class, OF posix_class_dash single_dashes_replace_runs])

lemma filterWin32Path_no_double_dash: "\<not> str_includes (filterWin32Path s) ''--''"
  unfolding filterWin32Path_eq
  by (rule single_dashes_no_double_dash [of win32_class, OF win32_class_dash single_dashes_replace_runs])

lemma filterPath_no_double_dash: "\<not> str_includes (filterPath platform s) ''--''"
  by (cases "platform = ''win32''")
     (simp_all add: filterPath_eq filterPosixPath_no_double_dash
        filterWin32Path_no_double_dash)

lemma replace_runs_run:
  assumes "keep a" "keep b" "r \<noteq> []" "\<forall>c\<in>set r. \<not> keep c"
  shows "replace_runs keep (a # r @ [b]) = [a, CHR ''-'', b]"
proof -
  from assms(3) obtain c r' where r: "r = c # r'" by (cases r) auto
  with assms(4) have c: "\<not> keep c" and r': "\<And>x. x \<in> set r' \<Longrightarrow> \<not> keep x" by auto
  from r' have dw: "dropWhile (\<lambda>d. \<not> keep d) (r' @ [b]) = dropWhile (\<lambda>d. \<not> keep d) [b]"
    by (rule dropWhile_append2)
  with assms(2) have dw': "dropWhile (\<lambda>d. \<not> keep d) (r' @ [b]) = [b]" by simp
  from c have "replace_runs keep (r @ [b]) =
      CHR ''-'' # replace_runs keep (dropWhile (\<lambda>d. \<not> keep d) (r' @ [b]))"
    unfolding r by simp
  with assms(2) have "replace_runs keep (r @ [b]) = [CHR ''-'', b]" unfolding dw' by simp
  with assms(1) show ?thesis by simp
qed

subsection \<open>Path separators and runs of replaced code units\<close>

text \<open>
  The slash belongs to the class the POSIX filter keeps, so \<open>filterPosixPath\<close>
  does not turn \<open>a///b\<close> into \<open>a-b\<close>.
\<close>

theorem filterPosixPath_separators_counterexample:
  "filterPosixPath ''a///b'' \<noteq> ''a-b''"
  by (simp add: filterPosixPath_eq posix_class_def is_alnum_def code_unit_def)

text \<open>
  Claim C1, as amended: \<open>filterPosixPath\<close> returns \<open>a///b\<close> unchanged, since
  the slash is a code unit of the class \<open>[a-zA-Z0-9/]\<close> it keeps. What collapses
  to a single dash is a run of code units outside that class: between two kept code
  units \<open>a\<close> and \<open>b\<close>, any non-empty run \<open>r\<close> of code units outside the
  class becomes one dash.
\<close>

theorem filterPosixPath_separators:
  assumes "posix_class a" "posix_class b" "r \<noteq> []" "\<forall>c\<in>set r. \<not> posix_class c"
  shows "filterPosixPath ''a///b'' = ''a///b'' \<and>
         filterPosixPath (a # r @ [b]) = [a, CHR ''-'', b]"
proof
  show "filterPosixPath ''a///b'' = ''a///b''"
    by (simp add: filterPosixPath_eq posix_class_def is_alnum_def code_unit_def)
  show "filterPosixPath (a # r @ [b]) = [a, CHR ''-'', b]"
    unfolding filterPosixPath_eq using assms by (rule replace_runs_run)
qed

theorem filterPosixPath_separators_witness:
  "filterPosixPath ''a///b'' = ''a///b'' \<and> filterPosixPath ''a .. b'' = ''a-b''"
  using filterPosixPath_separators [of "CHR ''a''" "CHR ''b''" "'' .. ''"]
  by (simp add: posix_class_def is_alnum_def code_unit_def)

subsection \<open>Double dashes in the output\<close>

text \<open>
  No input with a run of three dashes, and no input at all, makes one of the three
  filters return a string with two adjacent dashes: the dash is outside both classes,
  so the first replacement already leaves every dash alone.
\<close>

theorem filters_double_dash_counterexample:
  "\<not> (\<exists>s platform. str_includes s ''---'' \<and>
        (str_includes (filterPosixPath s) ''--'' \<or>
         str_includes (filterWin32Path s) ''--'' \<or>
         str_includes (filterPath platform s) ''--''))"
  by (simp only: filterPosixPath_no_double_dash filterWin32Path_no_double_dash
      filterPath_no_double_dash simp_thms)

text \<open>
  Claim C6, as amended: the dash collapse is a single pass over the occurrences of
  two adjacent dashes, not a fixpoint loop (on its own it turns three dashes into
  two), but the output of \<open>filterPosixPath\<close>, \<open>filterWin32Path\<close> and
  \<open>filterPath\<close> never contains two adjacent dashes, whatever the input and the
  platform.
\<close>

theorem filters_double_dash:
  "replace_double_dash ''---'' = ''--'' \<and>
   \<not> str_includes (filterPosixPath s) ''--'' \<and>
   \<not> str_includes (filterWin32Path s) ''--'' \<and>
   \<not> str_includes (filterPath platform s) ''--''"
  by (simp add: filterPosixPath_no_double_dash filterWin32Path_no_double_dash
      filterPath_no_double_dash)

theorem filters_double_dash_witness:
  "replace_double_dash ''---'' = ''--'' \<and>
   \<not> str_includes (filterPosixPath ''a---b'') ''--'' \<and>
   \<not> str_includes (filterWin32Path ''a---b'') ''--'' \<and>
   \<not> str_includes (filterPath ''linux'' ''a---b'') ''--''"
  by (rule filters_double_dash)

subsection \<open>Idempotence\<close>

text \<open>
  Claim C10: \<open>filterPosixPath\<close> and \<open>filterWin32Path\<close> are idempotent: applied
  to its own output, each filter returns that output unchanged, for every input
  string.
\<close>

theorem filters_idempotent:
  "filterPosixPath (filterPosixPath s) = filterPosixPath s \<and>
   filterWin32Path (filterWin32Path s) = filterWin32Path s"
  unfolding filterPosixPath_eq filterWin32Path_eq
  by (simp add: replace_runs_single_dashes single_dashes_replace_runs)

theorem filters_idempotent_witness:
  "filterPosixPath (filterPosixPath ''My Path/Name--x'') = filterPosixPath ''My Path/Name--x'' \<and>
   filterWin32Path (filterWin32Path ''My Path/Name--x'') = filterWin32Path ''My Path/Name--x''"
  by (rule filters_idempotent)

section \<open>Properties of the map\<close>

subsection \<open>The model at work\<close>

lemma js_get_examples:
  "js_get mem (Data (Arr [Str ''a'', Num ''5''])) ''1'' = Inr (Data (Num ''5''))"
  "js_get mem (Data (Arr [Str ''a'', Num ''5''])) ''length'' = Inr (Data (Num ''2''))"
  "js_get sample_members (Data (Str ''ab'')) ''xpack'' = Inr (Data Undefined)"
  "js_get mem (Data Null) ''properties'' = Inl TypeError"
  "js_get sample_members (Data (Obj fmempty)) ''xpack'' = Inr (Data Undefined)"
  "js_get sample_members (Data (Obj fmempty)) ''toString'' =
     Inr (Builtin ''Object.prototype.toString'')"
  "js_get sample_members (Data (Obj (fmap_of_list [(''toString'', Str ''x'')]))) ''toString'' =
     Inr (Data (Str ''x''))"
  "own_enumerable (Data (Str ''ab'')) = fmap_of_list [(''0'', Str ''a''), (''1'', Str ''b'')]"
  by (simp_all add: show_nat.simps digit_char_def upt_rec object_prototype_names_def)

lemma js_to_string_examples:
  "js_to_string (Arr [Num ''1'', Null, Arr [Str ''x'', Bool True]]) = Inr ''1,,x,true''"
  "js_to_string (Obj (fmap_of_list [(''a'', Str ''x'')])) = Inr ''[object Object]''"
  "js_to_string (Obj (fmap_of_list [(''toString'', Str ''x'')])) = Inl TypeError"
  "js_join eol [Str ''a'', Obj (fmap_of_list [(''toString'', Str ''x'')])] = Inl TypeError"
  by simp_all

lemma js_trim_examples:
  "js_trim ''  a b  '' = ''a b''"
  "js_trim [CHR 0x09, CHR 0x0A, CHR '' ''] = []"
  by (simp_all add: js_trim_def is_js_space_def code_unit_def)

lemma initial_map_fields:
  "os_version (os (initial_map h version packageJson)) = version"
  "os_EOL (os (initial_map h version packageJson)) = os_EOL (host_os h)"
  "os_platform (os (initial_map h version packageJson)) = os_platform (host_os h)"
  "sep (path (initial_map h version packageJson)) = sep (host_path h)"
  "sep (win32 (path (initial_map h version packageJson))) = [CHR 0x5C]"
  "delimiter (posix (path (initial_map h version packageJson))) = '':''"
  "env (initial_map h version packageJson) = host_env h"
  "package (initial_map h version packageJson) = Some packageJson"
  "properties (initial_map h version packageJson) = Some empty_object"
  "configuration (initial_map h version packageJson) = None"
  by (simp_all add: initial_map_def os_facts.defs path_convention.defs
      path_win32_def path_posix_def)

subsection \<open>Helper facts\<close>

lemma isJsonObject_iff:
  "isJsonObject v \<longleftrightarrow> (\<exists>m. v = Data (Obj m)) \<or> (\<exists>b. v = Builtin b)"
proof (cases v)
  case (Data d)
  then show ?thesis by (cases d) (simp_all add: isJsonObject_def)
next
  case (Builtin b)
  then show ?thesis by (simp add: isJsonObject_def)
qed

lemma isJsonObject_js_get: "isJsonObject v \<Longrightarrow> \<exists>x. js_get mem v key = Inr x"
  by (auto simp: isJsonObject_iff)

lemma js_get_defined:
  "v \<noteq> Data Undefined \<Longrightarrow> v \<noteq> Data Null \<Longrightarrow> \<exists>x. js_get mem v key = Inr x"
proof (cases v)
  case (Data d)
  assume "v \<noteq> Data Undefined" "v \<noteq> Data Null"
  with Data show ?thesis by (cases d) simp_all
next
  case (Builtin b)
  then show ?thesis by simp
qed

lemma js_get_Inr: "js_get mem v key = Inr x \<Longrightarrow> v \<noteq> Data Undefined \<and> v \<noteq> Data Null"
  by auto

lemma js_get_own:
  "fmlookup m key = Some x \<Longrightarrow> js_get mem (Data (Obj m)) key = Inr (Data x)"
  by simp

lemma js_join_strings: "js_join eol (map Str ls) = Inr (lines_joined eol ls)"
proof (induction ls)
  case Nil
  show ?case by simp
next
  case (Cons l ls)
  then show ?case by (cases ls) simp_all
qed

lemma is_lines_iff: "is_lines v \<longleftrightarrow> (\<exists>ls. v = Arr (map Str ls))"
proof
  assume "is_lines v"
  then obtain xs where v: "v = Arr xs" and xs: "list_all is_string xs" by (cases v) simp_all
  from xs have "\<exists>ls. xs = map Str ls"
  proof (induction xs)
    case Nil
    show ?case by simp
  next
    case (Cons x xs)
    then obtain ls where "xs = map Str ls" by auto
    moreover from Cons.prems obtain s where "x = Str s" by (cases x) simp_all
    ultimately have "x # xs = map Str (s # ls)" by simp
    then show ?case by (rule exI)
  qed
  with v show "\<exists>ls. v = Arr (map Str ls)" by simp
next
  assume "\<exists>ls. v = Arr (map Str ls)"
  then show "is_lines v" by (auto simp: list_all_iff)
qed

lemma joins_typed: "is_string v \<or> is_lines v \<Longrightarrow> joins eol v"
proof (cases "is_string v")
  case True
  then show ?thesis by (cases v) (simp_all add: joins_def)
next
  case False
  assume "is_string v \<or> is_lines v"
  with False obtain ls where "v = Arr (map Str ls)" by (auto simp: is_lines_iff)
  then show ?thesis by (simp add: joins_def js_join_strings)
qed

lemma joined_simps:
  "joined eol (Str s) = Str s"
  "joined eol (Arr (map Str ls)) = Str (lines_joined eol ls)"
  by (simp_all add: joined_def js_join_strings)

lemma joined_typed: "is_string v \<or> is_lines v \<Longrightarrow> is_string (joined eol v)"
proof (cases "is_string v")
  case True
  then show ?thesis by (cases v) (simp_all add: joined_def)
next
  case False
  assume "is_string v \<or> is_lines v"
  with False obtain ls where "v = Arr (map Str ls)" by (auto simp: is_lines_iff)
  then show ?thesis by (simp add: joined_simps)
qed

lemma flattens_typed: "is_Properties props \<Longrightarrow> flattens eol (Data (Obj props))"
  by (simp add: is_Properties_def flattens_def fmpred_iff joins_typed)

lemma assign_entries_lookup:
  "fmlookup (own (assign_entries entries)) key =
     (if key = ''__proto__'' then None else fmlookup entries key)"
  by (simp add: assign_entries_def)

lemma joinMultiLineProperties_Inr:
  "flattens eol props \<Longrightarrow>
   joinMultiLineProperties eol props =
     Inr (assign_entries (fmmap (joined eol) (own_enumerable props)))"
  by (simp add: joinMultiLineProperties_def)

lemma joinMultiLineProperties_Inl:
  "\<not> flattens eol props \<Longrightarrow> joinMultiLineProperties eol props = Inl TypeError"
  by (simp add: joinMultiLineProperties_def)

lemma joinMultiLineProperties_lookup:
  "joinMultiLineProperties eol props = Inr flat \<Longrightarrow>
   fmlookup (own flat) key =
     (if key = ''__proto__'' then None
      else map_option (joined eol) (fmlookup (own_enumerable props) key))"
  by (auto simp: joinMultiLineProperties_def assign_entries_lookup split: if_splits)

text \<open>What flattening does to a Properties mapping.\<close>

lemma joinMultiLineProperties_typed:
  assumes "is_Properties props"
  shows "\<exists>flat. joinMultiLineProperties eol (Data (Obj props)) = Inr flat \<and>
           all_strings (own flat) \<and>
           (\<forall>key. key \<noteq> ''__proto__'' \<longrightarrow>
              fmlookup (own flat) key = map_option (joined eol) (fmlookup props key))"
proof -
  from assms have f: "flattens eol (Data (Obj props))" by (rule flattens_typed)
  let ?flat = "assign_entries (fmmap (joined eol) (own_enumerable (Data (Obj props))))"
  have r: "joinMultiLineProperties eol (Data (Obj props)) = Inr ?flat"
    using f by (rule joinMultiLineProperties_Inr)
  have "all_strings (own ?flat)"
    unfolding all_strings_def fmpred_iff
  proof (intro allI impI)
    fix k v
    assume "fmlookup (own ?flat) k = Some v"
    then obtain w where w: "fmlookup props k = Some w" and v: "v = joined eol w"
      by (auto simp: assign_entries_lookup split: if_splits)
    from assms w have "is_string w \<or> is_lines w" by (simp add: is_Properties_def fmpred_iff)
    with v show "is_string v" by (simp add: joined_typed)
  qed
  moreover have "\<forall>key. key \<noteq> ''__proto__'' \<longrightarrow>
      fmlookup (own ?flat) key = map_option (joined eol) (fmlookup props key)"
    by (simp add: assign_entries_lookup)
  ultimately show ?thesis using r by blast
qed

lemma base_map_eq:
  assumes "js_get (host_members h) xpack ''properties'' = Inr p"
  shows "base_map h version packageJson xpack =
     (if isJsonObject p \<and> \<not> flattens (os_EOL (host_os h)) p then Inl TypeError
      else Inr ((initial_map h version packageJson)
             \<lparr>properties :=
                Some (if isJsonObject p
                      then assign_entries (fmmap (joined (os_EOL (host_os h))) (own_enumerable p))
                      else empty_object)\<rparr>))"
  using assms
  by (simp add: base_map_def joinMultiLineProperties_def initial_map_def)

lemma base_map_configuration:
  "base_map h version packageJson xpack = Inr lm \<Longrightarrow> configuration lm = None"
  by (auto simp: base_map_def initial_map_def split: sum.splits if_splits)

lemma prepareMap_xpack:
  assumes "js_truthy packageJson" "host_os_version h = Some version"
    "js_get (host_members h) (Data packageJson) ''xpack'' = Inr xpack" "isJsonObject xpack"
    "js_trim name \<noteq> []"
  shows "prepareMap h packageJson (Some name) =
     (case base_map h version packageJson xpack of
        Inl e \<Rightarrow> Inl e
      | Inr lm \<Rightarrow> select_configuration (host_members h) (os_EOL (host_os h)) xpack name lm)"
  using assms by (simp add: prepareMap_def split: sum.splits)

lemma prepareMap_no_xpack:
  assumes "js_truthy packageJson" "host_os_version h = Some version"
    "js_get (host_members h) (Data packageJson) ''xpack'' = Inr xpack" "\<not> isJsonObject xpack"
  shows "prepareMap h packageJson name = Inr (initial_map h version packageJson)"
  using assms by (simp add: prepareMap_def)

lemma select_configuration_none:
  "js_get mem xpack ''buildConfigurations'' = Inr (Data Undefined) \<Longrightarrow>
   select_configuration mem eol xpack name lm =
     Inl (Error ''package.json has no buildConfigurations'')"
  by (simp add: select_configuration_def)

lemma select_configuration_found:
  assumes "js_get mem xpack ''buildConfigurations'' = Inr bcs" "bcs \<noteq> Data Undefined"
    "js_get mem bcs name = Inr entry" "entry \<noteq> Data Undefined"
  shows "select_configuration mem eol xpack name lm =
     (case js_get mem entry ''properties'' of
        Inl e \<Rightarrow> Inl e
      | Inr q \<Rightarrow>
          if isJsonObject q
          then (case joinMultiLineProperties eol q of
                  Inl e \<Rightarrow> Inl e
                | Inr flat \<Rightarrow>
                    Inr (lm\<lparr>configuration :=
                               Some (fmupd ''name'' (Str name) (own_enumerable entry)),
                             properties :=
                               Some \<lparr>own = spread_properties lm ++\<^sub>f own flat,
                                     prototype = ObjectPrototype\<rparr>\<rparr>))
          else Inr (lm\<lparr>configuration :=
                          Some (fmupd ''name'' (Str name) (own_enumerable entry))\<rparr>))"
  using assms
  by (simp add: select_configuration_def Let_def spread_properties_def split: sum.splits)


lemma sample_host_fields:
  "host_os_version sample_host = Some ''#1 SMP''"
  "host_members sample_host = sample_members"
  "os_EOL (host_os sample_host) = [CHR 0x0A]"
  by (simp_all add: sample_host_def)

lemma sample_members_absent:
  "key \<notin> set object_prototype_names \<Longrightarrow> sample_members v key = Data Undefined"
  by (cases "(v, key)" rule: sample_members.cases) simp_all

lemma js_trim_nonblank: "js_trim ''dev'' \<noteq> []" "js_trim ''missing'' \<noteq> []"
  "js_trim ''toString'' \<noteq> []"
  by (simp_all add: js_trim_def is_js_space_def code_unit_def)

lemma flattens_Obj:
  "(\<And>key v. fmlookup m key = Some v \<Longrightarrow> joins eol v) \<Longrightarrow> flattens eol (Data (Obj m))"
  by (simp add: flattens_def fmpred_iff)

lemma not_flattens_Obj:
  "fmlookup m key = Some v \<Longrightarrow> \<not> joins eol v \<Longrightarrow> \<not> flattens eol (Data (Obj m))"
  by (auto simp: flattens_def fmpred_iff)

subsection \<open>A descriptor without build configurations\<close>

text \<open>
  A descriptor with no \<open>xpack\<close> object has no \<open>buildConfigurations\<close> either,
  and \<open>prepareMap\<close> returns a map for it, whatever the configuration name: the test
  of the name stands inside the block guarded by \<open>_isJsonObject(packageJson.xpack)\<close>.
\<close>

theorem prepareMap_no_buildConfigurations_counterexample:
  "prepareMap sample_host (Obj fmempty) (Some ''dev'') =
     Inr (initial_map sample_host ''#1 SMP'' (Obj fmempty)) \<and> js_trim ''dev'' \<noteq> []"
  by (simp add: prepareMap_def sample_host_fields isJsonObject_def js_trim_nonblank
      object_prototype_names_def)

text \<open>
  Claim C2, as amended: on a host that has \<open>os.version\<close>, for every descriptor whose
  \<open>xpack\<close> field is a JSON object and every configuration name that is not blank
  after trimming, \<open>prepareMap\<close> raises rather than returning a map when
  \<open>xpack.buildConfigurations\<close> is undefined. It raises the error \<open>package.json has
  no buildConfigurations\<close>, unless \<open>xpack.properties\<close> is an object with an array
  value that cannot be joined: then the TypeError of that \<open>join\<close> comes first. For
  a descriptor whose \<open>xpack\<close> field is not a JSON object \<open>prepareMap\<close> raises
  nothing and returns the initial map, with empty properties and no configuration.
\<close>

theorem prepareMap_no_buildConfigurations:
  assumes "js_truthy packageJson" "host_os_version h = Some version"
    "js_get (host_members h) (Data packageJson) ''xpack'' = Inr xpack" "js_trim name \<noteq> []"
  shows "(isJsonObject xpack \<and> js_get (host_members h) xpack ''properties'' = Inr p \<and>
          js_get (host_members h) xpack ''buildConfigurations'' = Inr (Data Undefined) \<longrightarrow>
            prepareMap h packageJson (Some name) =
              (if isJsonObject p \<and> \<not> flattens (os_EOL (host_os h)) p then Inl TypeError
               else Inl (Error ''package.json has no buildConfigurations''))) \<and>
         (\<not> isJsonObject xpack \<longrightarrow>
            prepareMap h packageJson (Some name) = Inr (initial_map h version packageJson))"
proof (intro conjI impI)
  assume a: "isJsonObject xpack \<and> js_get (host_members h) xpack ''properties'' = Inr p \<and>
          js_get (host_members h) xpack ''buildConfigurations'' = Inr (Data Undefined)"
  then have x: "isJsonObject xpack"
    and p: "js_get (host_members h) xpack ''properties'' = Inr p"
    and b: "js_get (host_members h) xpack ''buildConfigurations'' = Inr (Data Undefined)"
    by simp_all
  have "prepareMap h packageJson (Some name) =
     (case base_map h version packageJson xpack of
        Inl e \<Rightarrow> Inl e
      | Inr lm \<Rightarrow> select_configuration (host_members h) (os_EOL (host_os h)) xpack name lm)"
    using assms(1,2,3) x assms(4) by (rule prepareMap_xpack)
  then show "prepareMap h packageJson (Some name) =
              (if isJsonObject p \<and> \<not> flattens (os_EOL (host_os h)) p then Inl TypeError
               else Inl (Error ''package.json has no buildConfigurations''))"
    by (simp add: base_map_eq [OF p] select_configuration_none [OF b])
next
  assume "\<not> isJsonObject xpack"
  with assms show "prepareMap h packageJson (Some name) = Inr (initial_map h version packageJson)"
    by (simp add: prepareMap_no_xpack)
qed

theorem prepareMap_no_buildConfigurations_witness:
  "prepareMap sample_host
     (Obj (fmap_of_list [(''xpack'', Obj (fmap_of_list
        [(''properties'', Obj (fmap_of_list [(''a'', Str ''1'')]))]))]))
     (Some ''missing'') = Inl (Error ''package.json has no buildConfigurations'') \<and>
   prepareMap sample_host
     (Obj (fmap_of_list [(''xpack'', Obj (fmap_of_list
        [(''properties'', Obj (fmap_of_list
            [(''a'', Arr [Obj (fmap_of_list [(''toString'', Str ''x'')])])]))]))]))
     (Some ''dev'') = Inl TypeError \<and>
   prepareMap sample_host (Obj (fmap_of_list [(''name'', Str ''pkg'')])) (Some ''missing'') =
     Inr (initial_map sample_host ''#1 SMP'' (Obj (fmap_of_list [(''name'', Str ''pkg'')])))"
proof -
  let ?p1 = "Obj (fmap_of_list [(''a'', Str ''1'')])"
  let ?x1 = "Obj (fmap_of_list [(''properties'', ?p1)])"
  let ?p2 = "Obj (fmap_of_list [(''a'', Arr [Obj (fmap_of_list [(''toString'', Str ''x'')])])])"
  let ?x2 = "Obj (fmap_of_list [(''properties'', ?p2)])"
  have f1: "flattens [CHR 0x0A] (Data ?p1)"
    by (rule flattens_Obj) (auto simp: joins_def split: if_splits)
  have f2: "\<not> flattens [CHR 0x0A] (Data ?p2)"
    by (rule not_flattens_Obj [of _ "''a''" "Arr [Obj (fmap_of_list [(''toString'', Str ''x'')])]"])
       (simp_all add: joins_def)
  from prepareMap_no_buildConfigurations
         [of "Obj (fmap_of_list [(''xpack'', ?x1)])" sample_host "''#1 SMP''" "Data ?x1" "''missing''"
            "Data ?p1"]
       prepareMap_no_buildConfigurations
         [of "Obj (fmap_of_list [(''xpack'', ?x2)])" sample_host "''#1 SMP''" "Data ?x2" "''dev''"
            "Data ?p2"]
       prepareMap_no_buildConfigurations
         [of "Obj (fmap_of_list [(''name'', Str ''pkg'')])" sample_host "''#1 SMP''"
             "Data Undefined" "''missing''" "Data Undefined"]
       f1 f2
  show ?thesis
    by (simp add: sample_host_fields js_trim_nonblank isJsonObject_def
        object_prototype_names_def)
qed

subsection \<open>Flattening and the key \<open>__proto__\<close>\<close>

text \<open>
  Claim C8 says that flattening a \<open>Properties\<close> mapping joins the lines of each
  array value into one string with the end-of-line marker of the host and leaves each
  string value unchanged. The code does so for every key but one (see
  \<open>joinMultiLineProperties_typed\<close>): the value under the key \<open>__proto__\<close> is
  joined and then lost in the assignment \<open>result[key] = ...\<close>. For the mapping
  below, as \<open>JSON.parse\<close> builds it, flattening returns the entry \<open>a\<close> alone.
\<close>

theorem joinMultiLineProperties_proto_key:
  "joinMultiLineProperties (os_EOL (host_os sample_host))
     (Data (Obj (fmap_of_list
        [(''__proto__'', Arr [Str ''line1'', Str ''line2'']), (''a'', Str ''1'')]))) =
   Inr \<lparr>own = fmap_of_list [(''a'', Str ''1'')], prototype = ObjectPrototype\<rparr>"
proof -
  let ?props = "fmap_of_list [(''__proto__'', Arr [Str ''line1'', Str ''line2'']), (''a'', Str ''1'')]"
  have f: "flattens [CHR 0x0A] (Data (Obj ?props))"
    by (rule flattens_Obj) (auto simp: joins_def split: if_splits)
  have o: "fmdrop ''__proto__'' (fmmap (joined [CHR 0x0A]) ?props) = fmap_of_list [(''a'', Str ''1'')]"
    by (rule fmap_ext) (auto simp: joined_def)
  from f o show ?thesis
    by (simp add: joinMultiLineProperties_def assign_entries_def sample_host_fields joined_def)
qed

subsection \<open>Merging the properties of a configuration\<close>

text \<open>
  When both objects can be flattened, the \<open>properties\<close> field of the returned map is
  a fresh object with the own properties of the flattened base properties overlaid by
  those of the flattened configuration properties. Neither has a key \<open>__proto__\<close>.
\<close>

lemma prepareMap_merges_properties:
  assumes "js_truthy packageJson" "host_os_version h = Some version"
    "js_get (host_members h) (Data packageJson) ''xpack'' = Inr xpack" "isJsonObject xpack"
    "js_get (host_members h) xpack ''properties'' = Inr p" "isJsonObject p"
    "js_get (host_members h) xpack ''buildConfigurations'' = Inr bcs" "bcs \<noteq> Data Undefined"
    "js_trim name \<noteq> []"
    "js_get (host_members h) bcs name = Inr entry" "entry \<noteq> Data Undefined"
    "js_get (host_members h) entry ''properties'' = Inr q" "isJsonObject q"
    "joinMultiLineProperties (os_EOL (host_os h)) p = Inr base"
    "joinMultiLineProperties (os_EOL (host_os h)) q = Inr conf"
  shows "map_sum id properties (prepareMap h packageJson (Some name)) =
           Inr (Some \<lparr>own = own base ++\<^sub>f own conf, prototype = ObjectPrototype\<rparr>)"
    and "fmlookup (own base ++\<^sub>f own conf) key =
           (if key = ''__proto__'' then None
            else case fmlookup (own_enumerable q) key of
                   Some v \<Rightarrow> Some (joined (os_EOL (host_os h)) v)
                 | None \<Rightarrow> map_option (joined (os_EOL (host_os h))) (fmlookup (own_enumerable p) key))"
proof -
  let ?eol = "os_EOL (host_os h)"
  have b: "base_map h version packageJson xpack =
      Inr ((initial_map h version packageJson)\<lparr>properties := Some base\<rparr>)"
    using assms(5,6,14) by (simp add: base_map_def)
  have "prepareMap h packageJson (Some name) =
     (case base_map h version packageJson xpack of
        Inl e \<Rightarrow> Inl e
      | Inr lm \<Rightarrow> select_configuration (host_members h) ?eol xpack name lm)"
    using assms(1,2,3,4,9) by (rule prepareMap_xpack)
  then show "map_sum id properties (prepareMap h packageJson (Some name)) =
           Inr (Some \<lparr>own = own base ++\<^sub>f own conf, prototype = ObjectPrototype\<rparr>)"
    using assms(12,13,15)
    by (simp add: b select_configuration_found [OF assms(7,8,10,11)] spread_properties_def)
  show "fmlookup (own base ++\<^sub>f own conf) key =
           (if key = ''__proto__'' then None
            else case fmlookup (own_enumerable q) key of
                   Some v \<Rightarrow> Some (joined ?eol v)
                 | None \<Rightarrow> map_option (joined ?eol) (fmlookup (own_enumerable p) key))"
    by (cases "fmlookup (own_enumerable q) key")
       (simp_all add: joinMultiLineProperties_lookup [OF assms(14)]
          joinMultiLineProperties_lookup [OF assms(15)] fmlookup_dom_iff)
qed

text \<open>
  Claim C5 says that, in the \<open>properties\<close> field of the map returned by
  \<open>prepareMap\<close>, a key of the base properties or of the configuration properties is
  kept, with the configuration's value on a collision. The code does so for every key
  but \<open>__proto__\<close>, which the flattening loses: for the descriptor below, whose
  configuration properties are \<open>__proto__\<close> and \<open>b\<close>, the field holds \<open>a\<close> and
  \<open>b\<close> only.
\<close>

theorem prepareMap_merges_properties_proto_key:
  "map_sum id properties (prepareMap sample_host
     (Obj (fmap_of_list [(''xpack'', Obj (fmap_of_list
        [(''properties'', Obj (fmap_of_list [(''a'', Str ''1'')])),
         (''buildConfigurations'', Obj (fmap_of_list
            [(''dev'', Obj (fmap_of_list
               [(''properties'', Obj (fmap_of_list
                   [(''__proto__'', Str ''p''), (''b'', Str ''2'')]))]))]))]))]))
     (Some ''dev'')) =
   Inr (Some \<lparr>own = fmap_of_list [(''a'', Str ''1''), (''b'', Str ''2'')],
              prototype = ObjectPrototype\<rparr>)"
proof -
  let ?p = "Obj (fmap_of_list [(''a'', Str ''1'')])"
  let ?q = "Obj (fmap_of_list [(''__proto__'', Str ''p''), (''b'', Str ''2'')])"
  let ?entry = "Obj (fmap_of_list [(''properties'', ?q)])"
  let ?bcs = "Obj (fmap_of_list [(''dev'', ?entry)])"
  let ?xpack = "Obj (fmap_of_list [(''properties'', ?p), (''buildConfigurations'', ?bcs)])"
  let ?pkg = "Obj (fmap_of_list [(''xpack'', ?xpack)])"
  let ?base = "assign_entries (fmmap (joined [CHR 0x0A]) (own_enumerable (Data ?p)))"
  let ?conf = "assign_entries (fmmap (joined [CHR 0x0A]) (own_enumerable (Data ?q)))"
  have fp: "flattens [CHR 0x0A] (Data ?p)"
    by (rule flattens_Obj) (auto simp: joins_def split: if_splits)
  have fq: "flattens [CHR 0x0A] (Data ?q)"
    by (rule flattens_Obj) (auto simp: joins_def split: if_splits)
  have jp: "joinMultiLineProperties (os_EOL (host_os sample_host)) (Data ?p) = Inr ?base"
    unfolding sample_host_fields using fp by (rule joinMultiLineProperties_Inr)
  have jq: "joinMultiLineProperties (os_EOL (host_os sample_host)) (Data ?q) = Inr ?conf"
    unfolding sample_host_fields using fq by (rule joinMultiLineProperties_Inr)
  have "map_sum id properties (prepareMap sample_host ?pkg (Some ''dev'')) =
           Inr (Some \<lparr>own = own ?base ++\<^sub>f own ?conf, prototype = ObjectPrototype\<rparr>)"
  proof (rule prepareMap_merges_properties(1)
          [where version = "''#1 SMP''" and xpack = "Data ?xpack" and p = "Data ?p"
             and bcs = "Data ?bcs" and entry = "Data ?entry" and q = "Data ?q", OF _ _ _ _ _ _ _ _ _ _ _ _ _ jp jq])
  qed (simp_all add: sample_host_fields js_trim_nonblank isJsonObject_def)
  moreover have "own ?base ++\<^sub>f own ?conf = fmap_of_list [(''a'', Str ''1''), (''b'', Str ''2'')]"
    by (rule fmap_ext) (auto simp: assign_entries_lookup joined_def)
  ultimately show ?thesis by simp
qed

subsection \<open>The configuration field\<close>



section \<open>Properties of the render loop\<close>

lemma render_loop_no_marker:
  "\<not> has_marker current \<Longrightarrow> render_loop render m current substituted io = Some (Inr substituted, io)"
  by (simp add: render_loop.simps [of render m current])

lemma render_loop_failure:
  "has_marker current \<Longrightarrow> render current m = Inl e \<Longrightarrow>
   render_loop render m current substituted io =
     Some (Inl e, io\<lparr>render_calls := render_calls io @ [current]\<rparr>)"
  by (simp add: render_loop.simps [of render m current])

lemma render_loop_unchanged:
  "has_marker current \<Longrightarrow> render current m = Inr current \<Longrightarrow>
   render_loop render m current substituted io =
     Some (Inr current, io\<lparr>render_calls := render_calls io @ [current],
                            log_trace := log_trace io @ [trace_line current]\<rparr>)"
  by (simp add: render_loop.simps [of render m current])

lemma render_loop_step:
  "has_marker current \<Longrightarrow> render current m = Inr s \<Longrightarrow> s \<noteq> current \<Longrightarrow>
   render_loop render m current substituted io =
     render_loop render m s s (io\<lparr>render_calls := render_calls io @ [current],
                                 log_trace := log_trace io @ [trace_line s]\<rparr>)"
  by (simp add: render_loop.simps [of render m current])

subsection \<open>Engines that never fail\<close>

lemma render_loop_stops_now:
  assumes "stops_at r current"
  shows "\<exists>res. render_loop (total_engine r) m current substituted io = Some res"
proof (cases "has_marker current")
  case False
  then show ?thesis by (simp add: render_loop_no_marker)
next
  case True
  with assms have "total_engine r current m = Inr current"
    by (simp add: stops_at_def total_engine_def)
  with True show ?thesis by (simp add: render_loop_unchanged)
qed

lemma render_loop_stops_returns:
  "stops_at r ((r ^^ n) current) \<Longrightarrow>
   \<exists>res. render_loop (total_engine r) m current substituted io = Some res"
proof (induction n arbitrary: current substituted io)
  case 0
  then have "stops_at r current" by simp
  then show ?case by (rule render_loop_stops_now)
next
  case (Suc n)
  show ?case
  proof (cases "has_marker current \<and> r current \<noteq> current")
    case True
    from Suc.prems have "stops_at r ((r ^^ n) (r current))" by (simp add: funpow_swap1)
    from Suc.IH [OF this] obtain res where
      "render_loop (total_engine r) m (r current) (r current)
         (io\<lparr>render_calls := render_calls io @ [current],
             log_trace := log_trace io @ [trace_line (r current)]\<rparr>) = Some res"
      by blast
    moreover from True have "render_loop (total_engine r) m current substituted io =
       render_loop (total_engine r) m (r current) (r current)
         (io\<lparr>render_calls := render_calls io @ [current],
             log_trace := log_trace io @ [trace_line (r current)]\<rparr>)"
      by (intro render_loop_step) (simp_all add: total_engine_def)
    ultimately show ?thesis by simp
  next
    case False
    then have "stops_at r current" by (auto simp: stops_at_def)
    then show ?thesis by (rule render_loop_stops_now)
  qed
qed

lemma render_loop_returns_stops:
  assumes "render_loop (total_engine r) m current substituted io = Some y"
  shows "\<exists>n. stops_at r ((r ^^ n) current)"
proof -
  have "total_engine r = total_engine r \<longrightarrow> (\<exists>n. stops_at r ((r ^^ n) current))"
    apply (rule render_loop.raw_induct
        [where P = "\<lambda>render m current substituted io y.
                      render = total_engine r \<longrightarrow> (\<exists>n. stops_at r ((r ^^ n) current))",
         OF _ assms])
    subgoal premises prems for loop render m current substituted io y
    proof
      assume e: "render = total_engine r"
      show "\<exists>n. stops_at r ((r ^^ n) current)"
      proof (cases "has_marker current \<and> r current \<noteq> current")
        case False
        then have "stops_at r ((r ^^ 0) current)" by (auto simp: stops_at_def)
        then show ?thesis by (rule exI)
      next
        case True
        with prems(2) e have "loop (total_engine r) m (r current) (r current)
             (io\<lparr>render_calls := render_calls io @ [current],
                 log_trace := log_trace io @ [trace_line (r current)]\<rparr>) = Some y"
          by (simp add: total_engine_def)
        from prems(1) [OF this] obtain n where "stops_at r ((r ^^ n) (r current))" by blast
        then have "stops_at r ((r ^^ Suc n) current)" by (simp add: funpow_swap1)
        then show ?thesis by (rule exI)
      qed
    qed
    done
  then show ?thesis by simp
qed

lemma performSubstitutions_loop:
  "has_marker input \<Longrightarrow>
   performSubstitutions render input (Some m) io = render_loop render m input input io"
  by (cases input) (simp_all add: performSubstitutions_def has_marker_def)

lemma performSubstitutions_Some:
  "performSubstitutions render input (Some m) io =
     (if input = [] then Some (Inr input, io) else render_loop render m input input io)"
  by (simp add: performSubstitutions_def)

lemma not_has_marker_Nil: "\<not> has_marker []"
  by (simp add: has_marker_def)

subsection \<open>Input without marker\<close>

text \<open>
  Claim C4: for every input string that contains neither \<open>{{\<close> nor \<open>{%\<close>, the
  empty string included, \<open>performSubstitutions\<close> returns the input unchanged and
  never calls the engine: the record of render calls and the trace log are as they
  were.
\<close>

theorem performSubstitutions_no_marker:
  assumes "\<not> str_includes input ''{{''" "\<not> str_includes input ''{%''"
  shows "performSubstitutions render input (Some m) io = Some (Inr input, io)"
  using assms
  by (simp add: performSubstitutions_def render_loop_no_marker has_marker_def)

theorem performSubstitutions_no_marker_witness:
  "performSubstitutions (\<lambda>template m. Inl (EngineError ''not called'')) ''build/{debug}''
     (Some sample_map) no_io = Some (Inr ''build/{debug}'', no_io) \<and>
   performSubstitutions (\<lambda>template m. Inl (EngineError ''not called'')) []
     (Some sample_map) no_io = Some (Inr [], no_io)"
  using performSubstitutions_no_marker
      [of "''build/{debug}''" "\<lambda>template m. Inl (EngineError ''not called'')" sample_map no_io]
    performSubstitutions_no_marker
      [of "[]" "\<lambda>template m. Inl (EngineError ''not called'')" sample_map no_io]
  by simp

subsection \<open>Termination\<close>

lemma two_cycle_never_stops:
  assumes "has_marker a" "has_marker b" "a \<noteq> b"
  shows "\<not> stops_at (\<lambda>s. if s = a then b else a) (((\<lambda>s. if s = a then b else a) ^^ n) a)"
proof -
  let ?r = "\<lambda>s. if s = a then b else a"
  have "(?r ^^ n) a = a \<or> (?r ^^ n) a = b"
    by (induction n) auto
  with assms show ?thesis by (auto simp: stops_at_def)
qed

text \<open>
  The loop does not end for every engine: with an engine that renders each of two
  templates as the other one (two properties that refer to each other), every string
  has a marker and every render call changes it.
\<close>

theorem performSubstitutions_termination_counterexample:
  "performSubstitutions
     (total_engine (\<lambda>s. if s = ''{{properties.a}}'' then ''{{properties.b}}''
                          else ''{{properties.a}}''))
     ''{{properties.a}}'' (Some sample_map) no_io = None"
proof (rule ccontr)
  let ?r = "\<lambda>s. if s = ''{{properties.a}}'' then ''{{properties.b}}'' else ''{{properties.a}}''"
  assume "performSubstitutions (total_engine ?r) ''{{properties.a}}'' (Some sample_map) no_io \<noteq> None"
  then obtain y where
    "render_loop (total_engine ?r) sample_map ''{{properties.a}}'' ''{{properties.a}}'' no_io = Some y"
    by (auto simp: performSubstitutions_Some)
  then obtain n where "stops_at ?r ((?r ^^ n) ''{{properties.a}}'')"
    using render_loop_returns_stops by blast
  moreover have "\<not> stops_at ?r ((?r ^^ n) ''{{properties.a}}'')"
    by (rule two_cycle_never_stops) (simp_all add: has_marker_def)
  ultimately show False by simp
qed

lemma render_loop_first_stop:
  "stops_at r ((r ^^ n) current) \<Longrightarrow> (\<forall>i<n. \<not> stops_at r ((r ^^ i) current)) \<Longrightarrow>
   render_loop (total_engine r) m current current io =
     Some (Inr ((r ^^ n) current),
           io\<lparr>render_calls := render_calls io @
                   map (\<lambda>i. (r ^^ i) current) [0..<calls_until r n current],
               log_trace := log_trace io @
                   map (\<lambda>i. trace_line ((r ^^ Suc i) current)) [0..<calls_until r n current]\<rparr>)"
proof (induction n arbitrary: current io)
  case 0
  show ?case
  proof (cases "has_marker current")
    case False
    then show ?thesis by (simp add: render_loop_no_marker calls_until_def)
  next
    case True
    with 0 have "total_engine r current m = Inr current"
      by (simp add: stops_at_def total_engine_def)
    with True have "render_loop (total_engine r) m current current io =
        Some (Inr current, io\<lparr>render_calls := render_calls io @ [current],
                               log_trace := log_trace io @ [trace_line current]\<rparr>)"
      by (rule render_loop_unchanged)
    moreover from True 0 have "r current = current" by (simp add: stops_at_def)
    ultimately show ?thesis using True by (simp add: calls_until_def)
  qed
next
  case (Suc n)
  from Suc.prems(2) have "\<not> stops_at r ((r ^^ 0) current)" by blast
  then have mk: "has_marker current" and ch: "r current \<noteq> current"
    by (simp_all add: stops_at_def)
  let ?io = "io\<lparr>render_calls := render_calls io @ [current],
                 log_trace := log_trace io @ [trace_line (r current)]\<rparr>"
  have step: "render_loop (total_engine r) m current current io =
      render_loop (total_engine r) m (r current) (r current) ?io"
    using mk _ ch by (rule render_loop_step) (simp add: total_engine_def)
  have s: "stops_at r ((r ^^ n) (r current))"
    using Suc.prems(1) by (simp add: funpow_swap1)
  have ns: "\<forall>i<n. \<not> stops_at r ((r ^^ i) (r current))"
  proof (intro allI impI)
    fix i assume "i < n"
    then have "Suc i < Suc n" by simp
    with Suc.prems(2) have "\<not> stops_at r ((r ^^ Suc i) current)" by blast
    then show "\<not> stops_at r ((r ^^ i) (r current))" by (simp add: funpow_swap1)
  qed
  have c: "calls_until r (Suc n) current = Suc (calls_until r n (r current))"
    by (simp add: calls_until_def funpow_swap1)
  have f: "(r ^^ i) (r current) = (r ^^ Suc i) current" for i
    by (simp add: funpow_swap1)
  have l1: "map (\<lambda>i. (r ^^ i) current) [0..<Suc k] =
      current # map (\<lambda>i. (r ^^ Suc i) current) [0..<k]" for k
    by (simp only: map_upt_Suc funpow_0)
  have l2: "map (\<lambda>i. trace_line ((r ^^ Suc i) current)) [0..<Suc k] =
      trace_line (r current) # map (\<lambda>i. trace_line ((r ^^ Suc (Suc i)) current)) [0..<k]" for k
    by (simp only: map_upt_Suc funpow_0 funpow.simps o_apply id_apply)
  show ?case
    unfolding step Suc.IH [OF s ns, of ?io] c
    by (simp add: f l1 l2 del: upt_Suc funpow.simps)
qed

text \<open>
  Claim C3, as amended: for an engine that never fails, given by any function \<open>r\<close>
  on strings, \<open>performSubstitutions\<close> terminates exactly when one of the strings
  \<open>input\<close>, \<open>r input\<close>, \<open>r (r input)\<close>, ... contains neither \<open>{{\<close> nor
  \<open>{%\<close> or is returned unchanged by \<open>r\<close>. The loop ends at the first such
  string: it returns that string, after one render call for each string before it, and
  one more call when that string has a marker, the call that returns it unchanged (so
  a render call without progress costs one iteration). In particular an input with a
  marker that the engine returns unchanged costs one render call.
\<close>

theorem performSubstitutions_termination:
  "((\<exists>res. performSubstitutions (total_engine r) input (Some m) io = Some res) \<longleftrightarrow>
    (\<exists>n. stops_at r ((r ^^ n) input))) \<and>
   (stops_at r ((r ^^ n) input) \<and> (\<forall>i<n. \<not> stops_at r ((r ^^ i) input)) \<longrightarrow>
      performSubstitutions (total_engine r) input (Some m) io =
        Some (Inr ((r ^^ n) input),
              io\<lparr>render_calls := render_calls io @
                      map (\<lambda>i. (r ^^ i) input) [0..<calls_until r n input],
                  log_trace := log_trace io @
                      map (\<lambda>i. trace_line ((r ^^ Suc i) input)) [0..<calls_until r n input]\<rparr>)) \<and>
   (has_marker input \<and> r input = input \<longrightarrow>
      performSubstitutions (total_engine r) input (Some m) io =
        Some (Inr input, io\<lparr>render_calls := render_calls io @ [input],
                               log_trace := log_trace io @ [trace_line input]\<rparr>))"
proof (intro conjI impI iffI)
  assume "\<exists>res. performSubstitutions (total_engine r) input (Some m) io = Some res"
  then obtain res where res: "performSubstitutions (total_engine r) input (Some m) io = Some res"
    by blast
  show "\<exists>n. stops_at r ((r ^^ n) input)"
  proof (cases "input = []")
    case True
    then have "stops_at r ((r ^^ 0) input)" by (simp add: stops_at_def not_has_marker_Nil)
    then show ?thesis by (rule exI)
  next
    case False
    with res have "render_loop (total_engine r) m input input io = Some res"
      by (simp add: performSubstitutions_Some)
    then show ?thesis by (rule render_loop_returns_stops)
  qed
next
  assume "\<exists>n. stops_at r ((r ^^ n) input)"
  then obtain n where "stops_at r ((r ^^ n) input)" by blast
  then have "\<exists>res. render_loop (total_engine r) m input input io = Some res"
    by (rule render_loop_stops_returns)
  then show "\<exists>res. performSubstitutions (total_engine r) input (Some m) io = Some res"
    by (cases "input = []") (simp_all add: performSubstitutions_Some)
next
  assume a: "stops_at r ((r ^^ n) input) \<and> (\<forall>i<n. \<not> stops_at r ((r ^^ i) input))"
  then have s: "stops_at r ((r ^^ n) input)"
    and ns: "\<forall>i<n. \<not> stops_at r ((r ^^ i) input)" by simp_all
  show "performSubstitutions (total_engine r) input (Some m) io =
        Some (Inr ((r ^^ n) input),
              io\<lparr>render_calls := render_calls io @
                      map (\<lambda>i. (r ^^ i) input) [0..<calls_until r n input],
                  log_trace := log_trace io @
                      map (\<lambda>i. trace_line ((r ^^ Suc i) input)) [0..<calls_until r n input]\<rparr>)"
  proof (cases "input = []")
    case True
    then have "stops_at r ((r ^^ 0) input)" by (simp add: stops_at_def not_has_marker_Nil)
    with ns have "n = 0" by (cases n) auto
    with True show ?thesis
      by (simp add: performSubstitutions_Some calls_until_def not_has_marker_Nil)
  next
    case False
    then have "performSubstitutions (total_engine r) input (Some m) io =
        render_loop (total_engine r) m input input io"
      by (simp add: performSubstitutions_Some)
    with render_loop_first_stop [OF s ns, of m io] show ?thesis by simp
  qed
next
  assume a: "has_marker input \<and> r input = input"
  then have "total_engine r input m = Inr input" by (simp add: total_engine_def)
  with a show "performSubstitutions (total_engine r) input (Some m) io =
        Some (Inr input, io\<lparr>render_calls := render_calls io @ [input],
                               log_trace := log_trace io @ [trace_line input]\<rparr>)"
    by (simp add: performSubstitutions_loop render_loop_unchanged)
qed

theorem performSubstitutions_termination_witness:
  "performSubstitutions (total_engine (\<lambda>s. s)) ''{{properties.a}}'' (Some sample_map) no_io =
     Some (Inr ''{{properties.a}}'',
           \<lparr>render_calls = [''{{properties.a}}''],
            log_trace = [trace_line ''{{properties.a}}'']\<rparr>) \<and>
   performSubstitutions
     (total_engine (\<lambda>s. if s = ''{{properties.a}}'' then ''{{properties.b}}''
                          else if s = ''{{properties.b}}'' then ''x'' else s))
     ''{{properties.a}}'' (Some sample_map) no_io =
     Some (Inr ''x'',
           \<lparr>render_calls = [''{{properties.a}}'', ''{{properties.b}}''],
            log_trace = [trace_line ''{{properties.b}}'', trace_line ''x'']\<rparr>) \<and>
   performSubstitutions
     (total_engine (\<lambda>s. if s = ''{{properties.a}}'' then ''{{properties.b}}'' else s))
     ''{{properties.a}}'' (Some sample_map) no_io =
     Some (Inr ''{{properties.b}}'',
           \<lparr>render_calls = [''{{properties.a}}'', ''{{properties.b}}''],
            log_trace = [trace_line ''{{properties.b}}'', trace_line ''{{properties.b}}'']\<rparr>)"
proof -
  let ?a = "''{{properties.a}}''" and ?b = "''{{properties.b}}''"
  let ?r2 = "\<lambda>s. if s = ?a then ?b else if s = ?b then ''x'' else s"
  let ?r3 = "\<lambda>s. if s = ?a then ?b else s"
  have m: "has_marker ?a" "has_marker ?b" "\<not> has_marker ''x''"
    by (simp_all add: has_marker_def)
  have two: "[0..<2] = [0, Suc 0]" "[0..<Suc (Suc 0)] = [0, Suc 0]"
    by (simp_all add: upt_rec)
  have i1: "\<forall>i<Suc 0. \<not> stops_at ?r3 ((?r3 ^^ i) ?a)"
    using m by (simp add: stops_at_def)
  have i2: "\<forall>i<Suc (Suc 0). \<not> stops_at ?r2 ((?r2 ^^ i) ?a)"
    using m by (simp add: stops_at_def less_Suc_eq)
  have s2: "stops_at ?r2 ((?r2 ^^ Suc (Suc 0)) ?a)"
    using m by (simp add: stops_at_def)
  have s3: "stops_at ?r3 ((?r3 ^^ Suc 0) ?a)"
    using m by (simp add: stops_at_def)
  from performSubstitutions_termination [of "\<lambda>s. s" ?a sample_map no_io 0]
  have w1: "performSubstitutions (total_engine (\<lambda>s. s)) ?a (Some sample_map) no_io =
     Some (Inr ?a, \<lparr>render_calls = [?a], log_trace = [trace_line ?a]\<rparr>)"
    using m by (simp add: no_io_def)
  from performSubstitutions_termination [of ?r2 ?a sample_map no_io "Suc (Suc 0)"] s2 i2
  have w2: "performSubstitutions (total_engine ?r2) ?a (Some sample_map) no_io =
     Some (Inr ''x'', \<lparr>render_calls = [?a, ?b],
                         log_trace = [trace_line ?b, trace_line ''x'']\<rparr>)"
    using m by (simp add: no_io_def calls_until_def two)
  from performSubstitutions_termination [of ?r3 ?a sample_map no_io "Suc 0"] s3 i1
  have w3: "performSubstitutions (total_engine ?r3) ?a (Some sample_map) no_io =
     Some (Inr ?b, \<lparr>render_calls = [?a, ?b],
                      log_trace = [trace_line ?b, trace_line ?b]\<rparr>)"
    using m by (simp add: no_io_def calls_until_def two)
  from w1 w2 w3 show ?thesis by simp
qed

subsection \<open>Failures of the engine\<close>

lemma fails_after_raises:
  "fails_after render m k current e \<Longrightarrow>
   \<exists>io'. render_loop render m current substituted io = Some (Inl e, io') \<and>
         length (render_calls io') = length (render_calls io) + Suc k"
proof (induction k arbitrary: current substituted io)
  case 0
  then have "render_loop render m current substituted io =
      Some (Inl e, io\<lparr>render_calls := render_calls io @ [current]\<rparr>)"
    by (simp add: render_loop_failure)
  then show ?case by simp
next
  case (Suc k)
  from Suc.prems obtain s where m: "has_marker current" and r: "render current m = Inr s"
    and s: "s \<noteq> current" and f: "fails_after render m k s e"
    by (auto split: sum.splits)
  let ?io = "io\<lparr>render_calls := render_calls io @ [current],
                 log_trace := log_trace io @ [trace_line s]\<rparr>"
  from Suc.IH [OF f, of s ?io] obtain io' where
    "render_loop render m s s ?io = Some (Inl e, io')"
    "length (render_calls io') = length (render_calls ?io) + Suc k"
    by blast
  moreover have "render_loop render m current substituted io = render_loop render m s s ?io"
    using m r s by (rule render_loop_step)
  ultimately show ?case by simp
qed

lemma raises_fails_after:
  assumes "render_loop render m current substituted io = Some (Inl e, io')"
  shows "\<exists>k. fails_after render m k current e"
proof -
  have "\<forall>e2 io2. (Inl e :: exn + string, io') = (Inl e2, io2) \<longrightarrow> (\<exists>k. fails_after render m k current e2)"
    apply (rule render_loop.raw_induct
        [where P = "\<lambda>render m current substituted io y.
                      \<forall>e io'. y = (Inl e, io') \<longrightarrow> (\<exists>k. fails_after render m k current e)",
         OF _ assms])
    subgoal premises prems for loop render m current substituted io y
    proof (intro allI impI)
      fix e io'
      assume y: "y = (Inl e, io')"
      show "\<exists>k. fails_after render m k current e"
      proof (cases "has_marker current")
        case False
        with prems(2) y show ?thesis by simp
      next
        case True
        show ?thesis
        proof (cases "render current m")
          case (Inl e')
          with True prems(2) y have "fails_after render m 0 current e" by simp
          then show ?thesis by (rule exI)
        next
          case (Inr s)
          show ?thesis
          proof (cases "s = current")
            case True
            with \<open>has_marker current\<close> Inr prems(2) y show ?thesis by simp
          next
            case False
            with \<open>has_marker current\<close> Inr prems(2) have
              "loop render m s s (io\<lparr>render_calls := render_calls io @ [current],
                 log_trace := log_trace io @ [trace_line s]\<rparr>) = Some y"
              by simp
            from prems(1) [OF this] y obtain k where "fails_after render m k s e" by blast
            with \<open>has_marker current\<close> Inr False have "fails_after render m (Suc k) current e"
              by simp
            then show ?thesis by (rule exI)
          qed
        qed
      qed
    qed
    done
  then show ?thesis by simp
qed

lemma returns_stable:
  assumes "render_loop render m current current io = Some (Inr s, io')"
  shows "\<not> has_marker s \<or> render s m = Inr s"
proof -
  have "current = current \<longrightarrow>
        (\<forall>s2 io2. (Inr s :: exn + string, io') = (Inr s2, io2) \<longrightarrow> \<not> has_marker s2 \<or> render s2 m = Inr s2)"
    apply (rule render_loop.raw_induct
        [where P = "\<lambda>render m current substituted io y. substituted = current \<longrightarrow>
                      (\<forall>s io'. y = (Inr s, io') \<longrightarrow> \<not> has_marker s \<or> render s m = Inr s)",
         OF _ assms])
    subgoal premises prems for loop render m current substituted io y
    proof (intro allI impI)
      fix s io'
      assume c: "substituted = current" and y: "y = (Inr s, io')"
      show "\<not> has_marker s \<or> render s m = Inr s"
      proof (cases "has_marker current")
        case False
        with prems(2) y c show ?thesis by simp
      next
        case True
        show ?thesis
        proof (cases "render current m")
          case (Inl e')
          with True prems(2) y show ?thesis by simp
        next
          case (Inr t)
          show ?thesis
          proof (cases "t = current")
            case True
            with \<open>has_marker current\<close> Inr prems(2) y show ?thesis by simp
          next
            case False
            with \<open>has_marker current\<close> Inr prems(2) have
              "loop render m t t (io\<lparr>render_calls := render_calls io @ [current],
                 log_trace := log_trace io @ [trace_line t]\<rparr>) = Some y"
              by simp
            from prems(1) [OF this] y show ?thesis by blast
          qed
        qed
      qed
    qed
    done
  then show ?thesis by simp
qed

text \<open>
  \<open>performSubstitutions\<close> can return, without raising, a string that still has a
  marker: the string that the engine returned unchanged.
\<close>

theorem performSubstitutions_failure_counterexample:
  "performSubstitutions (\<lambda>template m. Inr template) ''{{properties.a}}'' (Some sample_map) no_io =
     Some (Inr ''{{properties.a}}'',
           \<lparr>render_calls = [''{{properties.a}}''],
            log_trace = [trace_line ''{{properties.a}}'']\<rparr>) \<and>
   str_includes ''{{properties.a}}'' ''{{''"
  by (simp add: performSubstitutions_def render_loop.simps [of _ _ "''{{properties.a}}''"]
      has_marker_def no_io_def)

text \<open>
  Claim C7, as amended: when a render call of the run fails (after \<open>k\<close> calls that
  succeeded and changed the string), \<open>performSubstitutions\<close> raises the very error
  of that call, and that call is the last one (\<open>k + 1\<close> calls in all: no catch, no
  retry, no string returned); with a map supplied it raises an error only so; and a
  string it returns either has no marker or is one that the engine returns unchanged
  (the no-progress break), which is not fully expanded.
\<close>

theorem performSubstitutions_failure:
  "(fails_after render m k input e \<longrightarrow>
      (\<exists>io'. performSubstitutions render input (Some m) io = Some (Inl e, io') \<and>
             length (render_calls io') = length (render_calls io) + Suc k)) \<and>
   (performSubstitutions render input (Some m) io = Some (Inl e, io') \<longrightarrow>
      (\<exists>k. fails_after render m k input e)) \<and>
   (performSubstitutions render input (Some m) io = Some (Inr s, io') \<longrightarrow>
      \<not> has_marker s \<or> render s m = Inr s)"
proof (intro conjI impI)
  assume f: "fails_after render m k input e"
  then have "has_marker input" by (cases k) simp_all
  then have "performSubstitutions render input (Some m) io = render_loop render m input input io"
    by (rule performSubstitutions_loop)
  with fails_after_raises [OF f, of input io]
  show "\<exists>io'. performSubstitutions render input (Some m) io = Some (Inl e, io') \<and>
             length (render_calls io') = length (render_calls io) + Suc k"
    by simp
next
  assume "performSubstitutions render input (Some m) io = Some (Inl e, io')"
  then have "render_loop render m input input io = Some (Inl e, io')"
    by (simp add: performSubstitutions_Some split: if_splits)
  then show "\<exists>k. fails_after render m k input e" by (rule raises_fails_after)
next
  assume r: "performSubstitutions render input (Some m) io = Some (Inr s, io')"
  show "\<not> has_marker s \<or> render s m = Inr s"
  proof (cases "input = []")
    case True
    with r show ?thesis by (simp add: performSubstitutions_Some not_has_marker_Nil)
  next
    case False
    with r have "render_loop render m input input io = Some (Inr s, io')"
      by (simp add: performSubstitutions_Some)
    then show ?thesis by (rule returns_stable)
  qed
qed

theorem performSubstitutions_failure_witness:
  "\<exists>io'. performSubstitutions
       (\<lambda>template m. if template = ''{{properties.a}}'' then Inr ''{{properties.b}}''
                      else Inl (EngineError ''undefined variable: properties.b''))
       ''{{properties.a}}'' (Some sample_map) no_io =
     Some (Inl (EngineError ''undefined variable: properties.b''), io') \<and>
     length (render_calls io') = length (render_calls no_io) + 2"
proof -
  let ?render = "\<lambda>template (m :: XpmLiquidMap).
      if template = ''{{properties.a}}'' then Inr ''{{properties.b}}''
      else Inl (EngineError ''undefined variable: properties.b'')"
  have "fails_after ?render sample_map (Suc 0) ''{{properties.a}}''
          (EngineError ''undefined variable: properties.b'')"
    by (simp add: has_marker_def)
  with performSubstitutions_failure [of ?render sample_map "Suc 0" "''{{properties.a}}''"
         "EngineError ''undefined variable: properties.b''" no_io, THEN conjunct1]
  show ?thesis by simp
qed

end
